theory Spec2Isabelle
  imports Main "HOL-Library.Word"
begin

section \<open>C strings\<close>

text \<open>
  A \<^verbatim>\<open>char *\<close> that is only read is modelled by the bytes found from the pointer on; the
  string it denotes ends before the first NUL byte (or at the end of the list, where the
  terminator is implicit).  A \<^verbatim>\<open>struct glirc_string\<close> \<open>{str, len}\<close> is the list of its
  \<open>len\<close> bytes, so \<open>len\<close> is \<open>length\<close>.
\<close>

definition NUL :: char where
  "NUL = CHR 0x00"

definition NL :: char where
  "NL = CHR 0x0A"

definition SP :: char where
  "SP = CHR 0x20"

definition byte_at :: "string \<Rightarrow> nat \<Rightarrow> char" where
  "byte_at s i = (if i < length s then s ! i else NUL)"

definition c_str :: "string \<Rightarrow> string" where
  "c_str s = takeWhile (\<lambda>c. c \<noteq> NUL) s"

definition strlen :: "string \<Rightarrow> nat" where
  "strlen s = length (c_str s)"

text \<open>\<^verbatim>\<open>strncmp(s1, s2, n)\<close>: at most \<open>n\<close> bytes are compared, and the comparison stops
  at a NUL byte.\<close>

fun strncmp :: "string \<Rightarrow> string \<Rightarrow> nat \<Rightarrow> int" where
  "strncmp s1 s2 0 = 0"
| "strncmp s1 s2 (Suc n) =
     (let c1 = byte_at s1 0; c2 = byte_at s2 0
      in if c1 \<noteq> c2 then int (of_char c1) - int (of_char c2)
         else if c1 = NUL then 0
         else strncmp (tl s1) (tl s2) n)"

section \<open>The host interface (glirc-api.h) and the world the extension runs in\<close>

datatype process_result = PASS_MESSAGE | DROP_MESSAGE

datatype message_code = NORMAL_MESSAGE | ERROR_MESSAGE

type_synonym glirc_string = string

record glirc_message =
  network :: glirc_string
  prefix_nick :: glirc_string
  command :: glirc_string
  params :: "glirc_string list"

definition params_n :: "glirc_message \<Rightarrow> nat" where
  "params_n msg = length (params msg)"

record glirc_chat =
  chat_network :: glirc_string
  chat_target :: glirc_string
  chat_message :: glirc_string

text \<open>Calls into the host, in the order they are made.\<close>

datatype host_call =
    Send_message glirc_message
  | Print message_code glirc_string
  | Inject_chat glirc_string glirc_string glirc_string glirc_string
  | My_nick glirc_string

text \<open>Calls into the OTR engine, in the order they are made.\<close>

datatype otr_call =
    Otrl_init
  | Otrl_userstate_create
  | Otrl_privkey_generate string string string
  | Otrl_userstate_free
  | Otrl_message_receiving string string string string
  | Otrl_message_sending string string string string

text \<open>
  Dynamic memory: an address is an index into \<open>heap\<close>; a block is live while its entry is
  \<open>Some\<close>.  Allocation extends the heap, so a new block never shares its address with an
  older one; every release is logged in \<open>freed\<close>, live or not, so that a block released
  twice shows twice.  A pointer is an \<open>addr option\<close>, \<open>None\<close> for \<^verbatim>\<open>NULL\<close>.
\<close>

type_synonym addr = nat

datatype obj = Chars string | Tlv_chain "(nat \<times> string) list"

record world =
  heap :: "obj option list"
  freed :: "addr list"
  host_calls :: "host_call list"
  otr_calls :: "otr_call list"

definition alloc :: "obj \<Rightarrow> world \<Rightarrow> addr \<times> world" where
  "alloc ob w = (length (heap w), w\<lparr>heap := heap w @ [Some ob]\<rparr>)"

definition release :: "addr option \<Rightarrow> world \<Rightarrow> world" where
  "release p w =
     (case p of
        None \<Rightarrow> w
      | Some a \<Rightarrow> w\<lparr>heap := (heap w)[a := None], freed := freed w @ [a]\<rparr>)"

definition load :: "world \<Rightarrow> addr \<Rightarrow> string" where
  "load w a =
     (if a < length (heap w)
      then (case heap w ! a of Some (Chars s) \<Rightarrow> s | _ \<Rightarrow> [])
      else [])"

definition peek :: "world \<Rightarrow> addr \<Rightarrow> nat \<Rightarrow> char" where
  "peek w a i = byte_at (load w a) i"

definition poke :: "addr \<Rightarrow> nat \<Rightarrow> char \<Rightarrow> world \<Rightarrow> world" where
  "poke a i c w = w\<lparr>heap := (heap w)[a := Some (Chars ((load w a)[i := c]))]\<rparr>"

definition live :: "world \<Rightarrow> addr list" where
  "live w = filter (\<lambda>a. heap w ! a \<noteq> None) [0..<length (heap w)]"

definition strdup :: "string \<Rightarrow> world \<Rightarrow> addr \<times> world" where
  "strdup s w = alloc (Chars (c_str s @ [NUL])) w"

definition strndup :: "string \<Rightarrow> nat \<Rightarrow> world \<Rightarrow> addr \<times> world" where
  "strndup s n w = alloc (Chars (c_str (take n s) @ [NUL])) w"

definition glirc_send_message :: "glirc_message \<Rightarrow> world \<Rightarrow> world" where
  "glirc_send_message m w = w\<lparr>host_calls := host_calls w @ [Send_message m]\<rparr>"

definition glirc_print :: "message_code \<Rightarrow> glirc_string \<Rightarrow> world \<Rightarrow> world" where
  "glirc_print code m w = w\<lparr>host_calls := host_calls w @ [Print code m]\<rparr>"

definition glirc_inject_chat ::
  "glirc_string \<Rightarrow> glirc_string \<Rightarrow> glirc_string \<Rightarrow> glirc_string \<Rightarrow> world \<Rightarrow> world" where
  "glirc_inject_chat net src tgt m w = w\<lparr>host_calls := host_calls w @ [Inject_chat net src tgt m]\<rparr>"

definition otr_call :: "otr_call \<Rightarrow> world \<Rightarrow> world" where
  "otr_call c w = w\<lparr>otr_calls := otr_calls w @ [c]\<rparr>"

section \<open>The callbacks handed to the OTR engine\<close>

datatype OtrlPolicy = OTRL_POLICY_DEFAULT

definition op_policy :: "'g \<Rightarrow> 'c \<Rightarrow> OtrlPolicy" where
  "op_policy opdata context = OTRL_POLICY_DEFAULT"

text \<open>The \<^verbatim>\<open>for\<close> loop of \<^verbatim>\<open>op_inject\<close>: the cursor walks the copy up to its terminator
  and overwrites each newline in place.\<close>

function scrub_loop :: "addr \<Rightarrow> nat \<Rightarrow> world \<Rightarrow> world" where
  "scrub_loop message1 cursor w =
     (if peek w message1 cursor \<noteq> NUL
      then scrub_loop message1 (Suc cursor)
             (if peek w message1 cursor = NL then poke message1 cursor SP w else w)
      else w)"
  by pat_completeness auto

lemma peek_not_NUL_less: "peek w a i \<noteq> NUL \<Longrightarrow> i < length (load w a)"
  by (simp add: peek_def byte_at_def split: if_splits)

lemma load_poke_same: "load w a \<noteq> [] \<Longrightarrow> load (poke a i c w) a = (load w a)[i := c]"
  by (auto simp: load_def poke_def split: if_splits option.splits obj.splits)

termination scrub_loop
proof (relation "measure (\<lambda>(m, c, w). length (load w m) - c)")
  show "wf (measure (\<lambda>(m, c, w). length (load w m) - c))" by simp
next
  fix message1 cursor w
  assume "peek w message1 cursor \<noteq> NUL"
  then have lt: "cursor < length (load w message1)" by (rule peek_not_NUL_less)
  then have ne: "load w message1 \<noteq> []" by auto
  show "((message1, Suc cursor, if peek w message1 cursor = NL then poke message1 cursor SP w else w),
         message1, cursor, w) \<in> measure (\<lambda>(m, c, w). length (load w m) - c)"
    using lt ne by (simp add: load_poke_same)
qed

declare scrub_loop.simps [simp del]

text \<open>\<^verbatim>\<open>op_inject\<close>: \<open>opdata\<close> is the host handle, here the world; \<open>message\<close> is the
  address of the caller's buffer.\<close>

definition op_inject :: "string \<Rightarrow> string \<Rightarrow> string \<Rightarrow> addr \<Rightarrow> world \<Rightarrow> world" where
  "op_inject accountname protocol recipient message w =
     (let (message1, w1) = strdup (load w message) w;
          w2 = scrub_loop message1 0 w1;
          params = [take (strlen recipient) recipient,
                    take (strlen (load w2 message1)) (load w2 message1)];
          m = \<lparr>network = take (strlen protocol) protocol,
               prefix_nick = [],
               command = take (strlen ''PRIVMSG'') ''PRIVMSG'',
               params = params\<rparr>;
          w3 = glirc_send_message m w2
      in release (Some message1) w3)"

definition op_msg_event :: "nat \<Rightarrow> 'c \<Rightarrow> string option \<Rightarrow> 32 word \<Rightarrow> world \<Rightarrow> world" where
  "op_msg_event msg_event context message err w =
     (case message of
        Some m \<Rightarrow> glirc_print ERROR_MESSAGE (take (strlen m) m) w
      | None \<Rightarrow> w)"

definition op_max_message :: "world \<Rightarrow> 'c \<Rightarrow> 32 word" where
  "op_max_message opdata context = 400"

definition op_create_privkey :: "string \<Rightarrow> string \<Rightarrow> world \<Rightarrow> world" where
  "op_create_privkey accountname protocol w =
     (let txt = ''No private key''
      in glirc_print ERROR_MESSAGE (take (strlen txt) txt) w)"

definition op_is_logged_in :: "world \<Rightarrow> string \<Rightarrow> string \<Rightarrow> string \<Rightarrow> 32 word" where
  "op_is_logged_in opdata accountname protocol recipient = 1"

record 'c OtrlMessageAppOps =
  policy :: "world \<Rightarrow> 'c \<Rightarrow> OtrlPolicy"
  create_privkey :: "string \<Rightarrow> string \<Rightarrow> world \<Rightarrow> world"
  inject_message :: "string \<Rightarrow> string \<Rightarrow> string \<Rightarrow> addr \<Rightarrow> world \<Rightarrow> world"
  max_message_size :: "world \<Rightarrow> 'c \<Rightarrow> 32 word"
  handle_msg_event :: "nat \<Rightarrow> 'c \<Rightarrow> string option \<Rightarrow> 32 word \<Rightarrow> world \<Rightarrow> world"
  is_logged_in :: "world \<Rightarrow> string \<Rightarrow> string \<Rightarrow> string \<Rightarrow> 32 word"

definition ops :: "'c OtrlMessageAppOps" where
  "ops = \<lparr>policy = op_policy,
          create_privkey = op_create_privkey,
          inject_message = op_inject,
          max_message_size = op_max_message,
          handle_msg_event = op_msg_event,
          is_logged_in = op_is_logged_in\<rparr>"

section \<open>The OTR engine and the C library, as parameters\<close>

text \<open>
  libotr is not part of the repository.  One call of the engine is a function of the user
  state and the arguments; it answers with the callbacks it makes while it runs (in order),
  its outputs and the new user state.  The callbacks that only return a value
  (\<open>policy\<close>, \<open>max_message_size\<close>, \<open>is_logged_in\<close>) reach the engine through the table it
  is handed; the ones that act on the host are run on the world by \<open>run_callback\<close>.
\<close>

datatype 'c callback =
    Cb_inject string string string string
  | Cb_msg_event nat 'c "string option" "32 word"
  | Cb_create_privkey string string

record ('u, 'c) receiving_out =
  recv_callbacks :: "'c callback list"
  recv_ignore :: "32 word"
  recv_newmessage :: "string option"
  recv_tlvs :: "(nat \<times> string) list option"
  recv_state :: 'u

record ('u, 'c) sending_out =
  send_callbacks :: "'c callback list"
  send_err :: "32 word"
  send_newmsg :: "string option"
  send_state :: 'u

text \<open>
  \<open>disk\<close> lists the paths at which a key file exists; \<open>otrl_privkey_generate\<close> returns
  its error code, the user state and the disk after it.  \<open>otrl_init\<close> is the error code of
  the library's global initialisation.  \<open>dirname_r\<close> gives the string that
  \<^verbatim>\<open>dirname_r(path, buf)\<close> leaves in the buffer, \<open>PATH_MAX\<close> is the constant of
  \<^verbatim>\<open>limits.h\<close>, and \<open>glirc_my_nick\<close> is the host's answer (\<open>None\<close> for
  \<^verbatim>\<open>NULL\<close>).
\<close>

record ('u, 'c) externals =
  otrl_init :: "32 word"
  otrl_userstate_create :: 'u
  otrl_privkey_generate ::
    "'u \<Rightarrow> string \<Rightarrow> string \<Rightarrow> string \<Rightarrow> string list \<Rightarrow> 32 word \<times> 'u \<times> string list"
  otrl_message_receiving ::
    "'c OtrlMessageAppOps \<Rightarrow> 'u \<Rightarrow> string \<Rightarrow> string \<Rightarrow> string \<Rightarrow> string
       \<Rightarrow> ('u, 'c) receiving_out"
  otrl_message_sending ::
    "'c OtrlMessageAppOps \<Rightarrow> 'u \<Rightarrow> string option \<Rightarrow> string \<Rightarrow> string \<Rightarrow> string
       \<Rightarrow> ('u, 'c) sending_out"
  dirname_r :: "string \<Rightarrow> string"
  PATH_MAX :: nat
  glirc_my_nick :: "glirc_string \<Rightarrow> string option"

text \<open>The engine hands \<^verbatim>\<open>inject_message\<close> a buffer of its own and releases it after the
  callback has returned.\<close>

definition run_callback :: "'c OtrlMessageAppOps \<Rightarrow> world \<Rightarrow> 'c callback \<Rightarrow> world" where
  "run_callback t w cb =
     (case cb of
        Cb_inject accountname protocol recipient message \<Rightarrow>
          (let (buf, w1) = alloc (Chars (c_str message @ [NUL])) w;
               w2 = inject_message t accountname protocol recipient buf w1
           in release (Some buf) w2)
      | Cb_msg_event msg_event context message err \<Rightarrow>
          handle_msg_event t msg_event context message err w
      | Cb_create_privkey accountname protocol \<Rightarrow>
          create_privkey t accountname protocol w)"

text \<open>An output of the engine that is not \<^verbatim>\<open>NULL\<close> is a block the engine allocated.\<close>

definition engine_output :: "obj option \<Rightarrow> world \<Rightarrow> addr option \<times> world" where
  "engine_output out w =
     (case out of
        None \<Rightarrow> (None, w)
      | Some ob \<Rightarrow> (let (p, w1) = alloc ob w in (Some p, w1)))"

definition call_receiving ::
  "('u, 'c) externals \<Rightarrow> 'u \<Rightarrow> string \<Rightarrow> string \<Rightarrow> string \<Rightarrow> string \<Rightarrow> world
     \<Rightarrow> 32 word \<times> addr option \<times> addr option \<times> 'u \<times> world" where
  "call_receiving X us accountname protocol sender message w =
     (let out = otrl_message_receiving X ops us accountname protocol sender message;
          w1 = otr_call (Otrl_message_receiving accountname protocol sender message) w;
          w2 = foldl (run_callback ops) w1 (recv_callbacks out);
          (newmessage, w3) =
             engine_output (map_option (\<lambda>s. Chars (c_str s @ [NUL])) (recv_newmessage out)) w2;
          (tlvs, w4) = engine_output (map_option Tlv_chain (recv_tlvs out)) w3
      in (recv_ignore out, newmessage, tlvs, recv_state out, w4))"

definition call_sending ::
  "('u, 'c) externals \<Rightarrow> 'u \<Rightarrow> string option \<Rightarrow> string \<Rightarrow> string \<Rightarrow> string \<Rightarrow> world
     \<Rightarrow> 32 word \<times> addr option \<times> 'u \<times> world" where
  "call_sending X us accountname protocol recipient message w =
     (let out = otrl_message_sending X ops us accountname protocol recipient message;
          w1 = otr_call
                 (Otrl_message_sending (case accountname of None \<Rightarrow> [] | Some a \<Rightarrow> a)
                    protocol recipient message) w;
          w2 = foldl (run_callback ops) w1 (send_callbacks out);
          (newmsg, w3) =
             engine_output (map_option (\<lambda>s. Chars (c_str s @ [NUL])) (send_newmsg out)) w2
      in (send_err out, newmsg, send_state out, w3))"

definition otrl_tlv_free :: "addr option \<Rightarrow> world \<Rightarrow> world" where
  "otrl_tlv_free tlv w = release tlv w"

definition otrl_message_free :: "addr option \<Rightarrow> world \<Rightarrow> world" where
  "otrl_message_free message w = release message w"

section \<open>The entry points of the extension\<close>

datatype fault = Buffer_overflow | Exit nat

text \<open>
  \<^verbatim>\<open>start_entrypoint\<close>: \<open>keyfile\<close> is a zeroed buffer of \<open>PATH_MAX\<close> bytes, so
  \<^verbatim>\<open>strcat\<close> writes past its end unless the directory, the file name and the terminator
  fit.  \<^verbatim>\<open>OTRL_INIT\<close> leaves the process with status 1 when the initialisation fails.
  The error code of \<^verbatim>\<open>otrl_privkey_generate\<close> is not read.
\<close>

definition start_entrypoint ::
  "('u, 'c) externals \<Rightarrow> string \<Rightarrow> world \<times> string list \<Rightarrow> fault + ('u \<times> world \<times> string list)" where
  "start_entrypoint X path wd =
     (let (w, disk) = wd;
          dir = c_str (dirname_r X path)
      in if PATH_MAX X < length dir + length ''/keyfile'' + 1 then Inl Buffer_overflow
         else
           let keyfile = dir @ ''/keyfile'';
               w1 = otr_call Otrl_init w
           in if otrl_init X \<noteq> 0 then Inl (Exit 1)
              else
                let us = otrl_userstate_create X;
                    w2 = otr_call Otrl_userstate_create w1;
                    (err, us1, disk1) =
                       otrl_privkey_generate X us keyfile ''glguy'' ''elis.local'' disk;
                    w3 = otr_call (Otrl_privkey_generate keyfile ''glguy'' ''elis.local'') w2
                in Inr (us1, w3, disk1))"

definition stop_entrypoint :: "'u \<Rightarrow> world \<Rightarrow> world" where
  "stop_entrypoint L w = otr_call Otrl_userstate_free w"

definition import_string :: "glirc_string \<Rightarrow> world \<Rightarrow> addr \<times> world" where
  "import_string s w = strndup s (length s) w"

definition message_entrypoint ::
  "('u, 'c) externals \<Rightarrow> 'u \<Rightarrow> glirc_message \<Rightarrow> world \<Rightarrow> process_result \<times> 'u \<times> world" where
  "message_entrypoint X L msg w =
     (if 0 = strncmp ''PRIVMSG'' (command msg) (length (command msg)) \<and> params_n msg = 2
      then
        let (sender, w1) = import_string (prefix_nick msg) w;
            (target, w2) = import_string (params msg ! 0) w1;
            (message, w3) = import_string (params msg ! 1) w2;
            (net, w4) = import_string (network msg) w3;
            (drop, newmessage, tlvs, us, w5) =
               call_receiving X L (c_str (load w4 target)) (c_str (load w4 net))
                 (c_str (load w4 sender)) (c_str (load w4 message)) w4;
            w6 = (case newmessage of
                    Some p \<Rightarrow>
                      glirc_inject_chat (network msg) (prefix_nick msg) (prefix_nick msg)
                        (take (strlen (load w5 p)) (load w5 p)) w5
                  | None \<Rightarrow> w5);
            w7 = otrl_tlv_free tlvs w6;
            w8 = otrl_message_free newmessage w7;
            w9 = release (Some sender) w8;
            w10 = release (Some target) w9;
            w11 = release (Some message) w10;
            w12 = release (Some net) w11
        in (if newmessage \<noteq> None \<or> drop \<noteq> 0 then DROP_MESSAGE else PASS_MESSAGE, us, w12)
      else (PASS_MESSAGE, L, w))"

definition chat_entrypoint ::
  "('u, 'c) externals \<Rightarrow> 'u \<Rightarrow> glirc_chat \<Rightarrow> world \<Rightarrow> process_result \<times> 'u \<times> world" where
  "chat_entrypoint X L chat w =
     (let (net, w1) = import_string (chat_network chat) w;
          (tgt, w2) = import_string (chat_target chat) w1;
          (msg, w3) = import_string (chat_message chat) w2;
          w4 = w3\<lparr>host_calls := host_calls w3 @ [My_nick (chat_network chat)]\<rparr>;
          (me, w5) = engine_output
                       (map_option (\<lambda>s. Chars (c_str s @ [NUL])) (glirc_my_nick X (chat_network chat))) w4;
          (err, newmsg, us, w6) =
             call_sending X L (map_option (\<lambda>p. c_str (load w5 p)) me) (c_str (load w5 net))
               (c_str (load w5 tgt)) (c_str (load w5 msg)) w5;
          w7 = release (Some msg) w6;
          w8 = release (Some tgt) w7;
          w9 = release (Some net) w8;
          w10 = release me w9
      in if newmsg \<noteq> None then (DROP_MESSAGE, us, otrl_message_free newmsg w10)
         else if err \<noteq> 0 then
           let errTxt = ''PANIC: OTR encryption error''
           in (DROP_MESSAGE, us, glirc_print ERROR_MESSAGE (take (strlen errTxt) errTxt) w10)
         else (PASS_MESSAGE, us, w10))"

text \<open>The host dispatches one received message after the other.\<close>

fun process_messages ::
  "('u, 'c) externals \<Rightarrow> 'u \<Rightarrow> glirc_message list \<Rightarrow> world \<Rightarrow> process_result list \<times> 'u \<times> world" where
  "process_messages X L [] w = ([], L, w)"
| "process_messages X L (msg # msgs) w =
     (let (r, L1, w1) = message_entrypoint X L msg w;
          (rs, L2, w2) = process_messages X L1 msgs w1
      in (r # rs, L2, w2))"

section \<open>Notions used in the statements\<close>

definition empty_world :: world where
  "empty_world = \<lparr>heap = [], freed = [], host_calls = [], otr_calls = []\<rparr>"

text \<open>The calls into the host that a run of callbacks makes.\<close>

definition callbacks_host_calls :: "'c callback list \<Rightarrow> host_call list" where
  "callbacks_host_calls cbs = host_calls (foldl (run_callback ops) empty_world cbs)"

text \<open>
  Between \<open>w\<close> and \<open>w'\<close> every block allocated has been released exactly once and nothing
  else has: the blocks of \<open>w\<close> are as they were, every later block is gone, and the releases
  logged since \<open>w\<close> name each later address once and no other address.
\<close>

definition released_exactly_once :: "world \<Rightarrow> world \<Rightarrow> bool" where
  "released_exactly_once w w' \<longleftrightarrow>
     heap w' = heap w @ replicate (length (heap w') - length (heap w)) None \<and>
     take (length (freed w)) (freed w') = freed w \<and>
     distinct (drop (length (freed w)) (freed w')) \<and>
     set (drop (length (freed w)) (freed w')) = {length (heap w)..<length (heap w')}"

text \<open>\<open>w\<close> followed by what a run from the empty world did, its addresses shifted past the
  blocks of \<open>w\<close>.\<close>

definition join :: "world \<Rightarrow> world \<Rightarrow> world" where
  "join w r =
     w\<lparr>heap := heap w @ heap r,
       freed := freed w @ map (\<lambda>a. length (heap w) + a) (freed r),
       host_calls := host_calls w @ host_calls r,
       otr_calls := otr_calls w @ otr_calls r\<rparr>"

section \<open>A small engine to run the entry points on\<close>

text \<open>
  A stand-in for the engine with a counter for its user state: \<open>''?OTR:AAMD''\<close> decrypts to
  \<open>''hello''\<close> and carries one TLV, \<open>''?OTRv23?''\<close> is answered by an injected reply of two
  lines and ignored, anything else is plain text.  On the way out \<open>''secret''\<close> is
  encrypted and injected, \<open>''broken''\<close> fails with no replacement, \<open>''both''\<close> fails and
  leaves an error text as its replacement.  Key files cannot be written below \<open>/ro\<close>.
\<close>

definition demo_receiving ::
  "unit OtrlMessageAppOps \<Rightarrow> nat \<Rightarrow> string \<Rightarrow> string \<Rightarrow> string \<Rightarrow> string
     \<Rightarrow> (nat, unit) receiving_out" where
  "demo_receiving t us accountname protocol sender message =
     (if message = ''?OTR:AAMD''
      then \<lparr>recv_callbacks = [], recv_ignore = 0, recv_newmessage = Some ''hello'',
             recv_tlvs = Some [(1, ''pad'')], recv_state = Suc us\<rparr>
      else if message = ''?OTRv23?''
      then \<lparr>recv_callbacks = [Cb_inject accountname protocol sender (''?OTR:AAMC'' @ [NL] @ ''x'')],
             recv_ignore = 1, recv_newmessage = None, recv_tlvs = None, recv_state = Suc us\<rparr>
      else \<lparr>recv_callbacks = [], recv_ignore = 0, recv_newmessage = None, recv_tlvs = None,
             recv_state = us\<rparr>)"

definition demo_sending ::
  "unit OtrlMessageAppOps \<Rightarrow> nat \<Rightarrow> string option \<Rightarrow> string \<Rightarrow> string \<Rightarrow> string
     \<Rightarrow> (nat, unit) sending_out" where
  "demo_sending t us accountname protocol recipient message =
     (if message = ''secret''
      then \<lparr>send_callbacks = [Cb_inject (case accountname of None \<Rightarrow> [] | Some a \<Rightarrow> a)
                                 protocol recipient ''?OTR:AAMD''],
             send_err = 0, send_newmsg = Some ''?OTR:AAMD'', send_state = Suc us\<rparr>
      else if message = ''broken''
      then \<lparr>send_callbacks = [], send_err = 1, send_newmsg = None, send_state = us\<rparr>
      else if message = ''both''
      then \<lparr>send_callbacks = [], send_err = 1,
             send_newmsg = Some ''?OTR Error: Error occurred encrypting message.'',
             send_state = us\<rparr>
      else \<lparr>send_callbacks = [], send_err = 0, send_newmsg = None, send_state = us\<rparr>)"

definition demo_generate ::
  "nat \<Rightarrow> string \<Rightarrow> string \<Rightarrow> string \<Rightarrow> string list \<Rightarrow> 32 word \<times> nat \<times> string list" where
  "demo_generate us keyfile accountname protocol disk =
     (if take 4 keyfile = ''/ro/'' then (1, us, disk) else (0, Suc us, keyfile # disk))"

definition demo_dirname :: "string \<Rightarrow> string" where
  "demo_dirname path =
     (if CHR ''/'' \<in> set path
      then rev (tl (dropWhile (\<lambda>c. c \<noteq> CHR ''/'') (rev path)))
      else ''.'')"

definition demo :: "(nat, unit) externals" where
  "demo = \<lparr>otrl_init = 0,
           otrl_userstate_create = 0,
           otrl_privkey_generate = demo_generate,
           otrl_message_receiving = demo_receiving,
           otrl_message_sending = demo_sending,
           dirname_r = demo_dirname,
           PATH_MAX = 1024,
           glirc_my_nick = (\<lambda>net. Some ''me'')\<rparr>"

definition demo_world :: world where
  "demo_world =
     \<lparr>heap = [Some (Chars (''?OTR:AAMC'' @ [NL] @ ''x'' @ [NUL]))], freed = [],
       host_calls = [], otr_calls = []\<rparr>"

definition demo_message :: "string \<Rightarrow> string \<Rightarrow> glirc_message" where
  "demo_message cmd text =
     \<lparr>network = ''net'', prefix_nick = ''alice'', command = cmd, params = [''bob'', text]\<rparr>"

definition demo_chat :: "string \<Rightarrow> glirc_chat" where
  "demo_chat text = \<lparr>chat_network = ''net'', chat_target = ''alice'', chat_message = text\<rparr>"

section \<open>Strings and blocks\<close>

lemma c_str_append_NUL: "c_str (c_str s @ NUL # t) = c_str s"
  by (induction s) (simp_all add: c_str_def)

lemma c_str_no_NUL: "NUL \<notin> set (c_str s)"
  by (auto simp: c_str_def dest: set_takeWhileD)

lemma c_str_map_scrub:
  "c_str (map (\<lambda>c. if c = NL then SP else c) (c_str s) @ NUL # t) =
   map (\<lambda>c. if c = NL then SP else c) (c_str s)"
  by (induction s) (simp_all add: c_str_def NL_def SP_def NUL_def)

lemma take_strlen: "take (strlen s) s = c_str s"
  unfolding strlen_def c_str_def by (induction s) simp_all

lemma load_live: "a < length (heap w) \<Longrightarrow> heap w ! a = Some (Chars s) \<Longrightarrow> load w a = s"
  by (simp add: load_def)

lemma heap_update_same: "heap w ! a = v \<Longrightarrow> w\<lparr>heap := (heap w)[a := v]\<rparr> = w"
proof -
  assume "heap w ! a = v"
  then have "(heap w)[a := v] = heap w" by (metis list_update_id)
  then show ?thesis by simp
qed

section \<open>The injection callback\<close>

text \<open>The loop started at the end of \<open>pre\<close> rewrites the bytes up to the first NUL and
  leaves the rest of the block, and every other block, alone.\<close>

lemma scrub_loop_eq:
  "a < length (heap w) \<Longrightarrow> heap w ! a = Some (Chars (pre @ rest)) \<Longrightarrow>
   scrub_loop a (length pre) w =
     w\<lparr>heap := (heap w)[a := Some (Chars (pre @ map (\<lambda>c. if c = NL then SP else c) (c_str rest)
                                           @ dropWhile (\<lambda>c. c \<noteq> NUL) rest))]\<rparr>"
proof (induction rest arbitrary: pre w)
  case Nil
  then have "peek w a (length pre) = NUL"
    by (simp add: peek_def load_live byte_at_def)
  then have "scrub_loop a (length pre) w = w"
    by (subst scrub_loop.simps) simp
  then show ?case using Nil
    by (simp add: c_str_def heap_update_same)
next
  case (Cons c cs)
  have pk: "peek w a (length pre) = c"
    using Cons.prems by (simp add: peek_def load_live byte_at_def)
  show ?case
  proof (cases "c = NUL")
    case True
    then have "scrub_loop a (length pre) w = w"
      using pk by (subst scrub_loop.simps) simp
    then show ?thesis using Cons.prems True
      by (simp add: c_str_def heap_update_same)
  next
    case False
    define c' where "c' = (if c = NL then SP else c)"
    define w' where "w' = (if c = NL then poke a (length pre) SP w else w)"
    have h': "heap w' = (heap w)[a := Some (Chars ((pre @ [c']) @ cs))]"
    proof (cases "c = NL")
      case True
      then show ?thesis using Cons.prems
        by (simp add: w'_def c'_def poke_def load_live)
    next
      case False
      then have "w' = w" "c' = c" by (simp_all add: w'_def c'_def)
      then show ?thesis using Cons.prems
        by (metis append.assoc append_Cons append_Nil list_update_id)
    qed
    have rest: "w' = w\<lparr>heap := heap w'\<rparr>"
      by (simp add: w'_def poke_def)
    have a': "a < length (heap w')" using Cons.prems h' by simp
    have g': "heap w' ! a = Some (Chars ((pre @ [c']) @ cs))" using Cons.prems h' by simp
    have "scrub_loop a (length pre) w = scrub_loop a (length (pre @ [c'])) w'"
      using False pk by (subst scrub_loop.simps) (simp add: w'_def)
    also have "\<dots> = w'\<lparr>heap := (heap w')[a := Some (Chars ((pre @ [c'])
                         @ map (\<lambda>c. if c = NL then SP else c) (c_str cs)
                         @ dropWhile (\<lambda>c. c \<noteq> NUL) cs))]\<rparr>"
      by (rule Cons.IH [OF a' g'])
    also have "\<dots> = w\<lparr>heap := (heap w)[a := Some (Chars (pre
                         @ map (\<lambda>c. if c = NL then SP else c) (c_str (c # cs))
                         @ dropWhile (\<lambda>c. c \<noteq> NUL) (c # cs)))]\<rparr>"
      using False by (subst rest) (simp add: h' c_str_def c'_def)
    finally show ?thesis .
  qed
qed

lemma op_inject_eq:
  "op_inject accountname protocol recipient message w =
     w\<lparr>heap := heap w @ [None],
       freed := freed w @ [length (heap w)],
       host_calls := host_calls w @
         [Send_message \<lparr>network = c_str protocol, prefix_nick = [], command = ''PRIVMSG'',
            params = [c_str recipient,
                      map (\<lambda>c. if c = NL then SP else c) (c_str (load w message))]\<rparr>]\<rparr>"
proof -
  define s where "s = c_str (load w message)"
  define t where "t = map (\<lambda>c. if c = NL then SP else c) s"
  define w1 where "w1 = w\<lparr>heap := heap w @ [Some (Chars (s @ [NUL]))]\<rparr>"
  define w2 where "w2 = w\<lparr>heap := heap w @ [Some (Chars (t @ [NUL]))]\<rparr>"
  have sd: "strdup (load w message) w = (length (heap w), w1)"
    by (simp add: strdup_def alloc_def w1_def s_def)
  have "scrub_loop (length (heap w)) (length ([]::string)) w1 =
     w1\<lparr>heap := (heap w1)[length (heap w) := Some (Chars ([]
            @ map (\<lambda>c. if c = NL then SP else c) (c_str (s @ [NUL]))
            @ dropWhile (\<lambda>c. c \<noteq> NUL) (s @ [NUL])))]\<rparr>"
    by (rule scrub_loop_eq) (simp_all add: w1_def)
  moreover have "c_str (s @ [NUL]) = s"
    using c_str_append_NUL [of "load w message" "[]"] by (simp add: s_def)
  moreover have "dropWhile (\<lambda>c. c \<noteq> NUL) (s @ [NUL]) = [NUL]"
    using c_str_no_NUL [of "load w message"] by (simp add: s_def dropWhile_append)
  ultimately have sl: "scrub_loop (length (heap w)) 0 w1 = w2"
    by (simp add: w1_def w2_def t_def)
  have ld: "load w2 (length (heap w)) = t @ [NUL]"
    by (simp add: load_def w2_def)
  have sc: "c_str (t @ [NUL]) = t"
    using c_str_map_scrub [of "load w message" "[]"] by (simp add: t_def s_def)
  have cmd: "c_str ''PRIVMSG'' = ''PRIVMSG''"
    by (simp add: c_str_def NUL_def)
  have "op_inject accountname protocol recipient message w =
          release (Some (length (heap w)))
            (glirc_send_message
               \<lparr>network = c_str protocol, prefix_nick = [], command = ''PRIVMSG'',
                  params = [c_str recipient, t]\<rparr> w2)"
    unfolding op_inject_def sd by (simp add: sl ld take_strlen sc cmd)
  then show ?thesis
    by (simp add: glirc_send_message_def release_def w2_def t_def s_def)
qed

text \<open>
  C9.  The \<^verbatim>\<open>max_message_size\<close> callback answers 400 for every host handle and every
  context; it reads neither.
\<close>

theorem op_max_message_fixed: "op_max_message opdata context = 400"
  by (simp add: op_max_message_def)

text \<open>
  C5.  Whatever text the engine passes to \<^verbatim>\<open>op_inject\<close>, the one call it makes into the
  host is \<^verbatim>\<open>glirc_send_message\<close>, and the text handed over there is the input string with
  every newline replaced by a space and every other byte as it was: it has the length of
  the input and no newline.  The message recorded at the handover already carries the
  scrubbed text, so the replacement precedes the handover.
\<close>

theorem op_inject_scrubs_newlines:
  assumes "message < length (heap w)" and "heap w ! message = Some (Chars text)"
  shows "\<exists>m. host_calls (op_inject accountname protocol recipient message w)
                = host_calls w @ [Send_message m]
            \<and> params m ! 1 = map (\<lambda>c. if c = NL then SP else c) (c_str text)
            \<and> length (params m ! 1) = strlen text
            \<and> NL \<notin> set (params m ! 1)"
proof -
  have ld: "load w message = text" using assms by (rule load_live)
  have "NL \<notin> set (map (\<lambda>c. if c = NL then SP else c) (c_str text))"
    by (auto simp: NL_def SP_def)
  then show ?thesis
    by (simp add: op_inject_eq ld strlen_def)
qed

theorem op_inject_scrubs_newlines_witness:
  "\<exists>m. host_calls (op_inject ''bob'' ''net'' ''alice'' 0 demo_world)
          = host_calls demo_world @ [Send_message m]
       \<and> params m ! 1 = ''?OTR:AAMC x''
       \<and> length (params m ! 1) = length ''?OTR:AAMC x''
       \<and> NL \<notin> set (params m ! 1)"
  using op_inject_scrubs_newlines
          [of 0 demo_world "''?OTR:AAMC'' @ [NL] @ ''x'' @ [NUL]" "''bob''" "''net''" "''alice''"]
  by (simp add: demo_world_def c_str_def strlen_def NL_def SP_def NUL_def)

text \<open>
  C10.  The message \<^verbatim>\<open>op_inject\<close> sends is a \<open>PRIVMSG\<close> on the network named by
  \<open>protocol\<close> with exactly two parameters, the recipient and the scrubbed text.  The
  blocks that were there before the call, the caller's buffer among them, are as they
  were: the newlines are overwritten in a copy.
\<close>

theorem op_inject_frames_privmsg:
  assumes "message < length (heap w)" and "heap w ! message = Some (Chars text)"
  shows "host_calls (op_inject accountname protocol recipient message w)
           = host_calls w @
             [Send_message \<lparr>network = c_str protocol, prefix_nick = [], command = ''PRIVMSG'',
                params = [c_str recipient, map (\<lambda>c. if c = NL then SP else c) (c_str text)]\<rparr>]
       \<and> take (length (heap w)) (heap (op_inject accountname protocol recipient message w))
           = heap w
       \<and> heap (op_inject accountname protocol recipient message w) ! message
           = Some (Chars text)"
proof -
  have ld: "load w message = text" using assms by (rule load_live)
  show ?thesis using assms
    by (simp add: op_inject_eq ld nth_append)
qed

theorem op_inject_frames_privmsg_witness:
  "host_calls (op_inject ''bob'' ''net'' ''alice'' 0 demo_world)
     = [Send_message \<lparr>network = ''net'', prefix_nick = [], command = ''PRIVMSG'',
          params = [''alice'', ''?OTR:AAMC x'']\<rparr>]
   \<and> take 1 (heap (op_inject ''bob'' ''net'' ''alice'' 0 demo_world)) = heap demo_world
   \<and> heap (op_inject ''bob'' ''net'' ''alice'' 0 demo_world) ! 0
       = Some (Chars (''?OTR:AAMC'' @ [NL] @ ''x'' @ [NUL]))"
  using op_inject_frames_privmsg
          [of 0 demo_world "''?OTR:AAMC'' @ [NL] @ ''x'' @ [NUL]" "''bob''" "''net''" "''alice''"]
  by (simp add: demo_world_def c_str_def NL_def SP_def NUL_def)

section \<open>The callbacks run by the engine\<close>

lemma join_empty [simp]: "join w empty_world = w"
  by (simp add: join_def empty_world_def)

lemma run_callback_eq:
  "run_callback ops w cb =
     (case cb of
        Cb_inject accountname protocol recipient message \<Rightarrow>
          w\<lparr>heap := heap w @ [None, None],
            freed := freed w @ [Suc (length (heap w)), length (heap w)],
            host_calls := host_calls w @
              [Send_message \<lparr>network = c_str protocol, prefix_nick = [], command = ''PRIVMSG'',
                 params = [c_str recipient,
                           map (\<lambda>c. if c = NL then SP else c) (c_str message)]\<rparr>]\<rparr>
      | Cb_msg_event msg_event context message err \<Rightarrow>
          (case message of
             Some m \<Rightarrow> w\<lparr>host_calls := host_calls w @ [Print ERROR_MESSAGE (c_str m)]\<rparr>
           | None \<Rightarrow> w)
      | Cb_create_privkey accountname protocol \<Rightarrow>
          w\<lparr>host_calls := host_calls w @ [Print ERROR_MESSAGE ''No private key'']\<rparr>)"
proof (cases cb)
  case (Cb_inject a p r m)
  have "c_str (c_str m @ [NUL]) = c_str m"
    using c_str_append_NUL [of m "[]"] by simp
  then show ?thesis
    by (simp add: Cb_inject run_callback_def ops_def alloc_def op_inject_eq release_def load_def)
next
  case (Cb_msg_event e c m err)
  then show ?thesis
    by (simp add: run_callback_def ops_def op_msg_event_def glirc_print_def take_strlen
          split: option.splits)
next
  case (Cb_create_privkey a p)
  have "c_str ''No private key'' = ''No private key''"
    by (simp add: c_str_def NUL_def)
  then show ?thesis
    by (simp add: Cb_create_privkey run_callback_def ops_def op_create_privkey_def
          glirc_print_def take_strlen)
qed

lemma run_callback_join: "run_callback ops (join w r) cb = join w (run_callback ops r cb)"
  by (simp add: run_callback_eq join_def split: callback.splits option.splits)

lemma foldl_callbacks_join:
  "foldl (run_callback ops) (join w r) cbs = join w (foldl (run_callback ops) r cbs)"
  by (induction cbs arbitrary: r) (simp_all add: run_callback_join)

lemma foldl_callbacks_frame:
  "foldl (run_callback ops) w cbs = join w (foldl (run_callback ops) empty_world cbs)"
  using foldl_callbacks_join [of w empty_world cbs] by simp

text \<open>A run of callbacks from the empty world leaves no block behind and releases each of
  its blocks once.\<close>

lemma callbacks_balanced:
  "set (heap (foldl (run_callback ops) empty_world cbs)) \<subseteq> {None}
   \<and> distinct (freed (foldl (run_callback ops) empty_world cbs))
   \<and> set (freed (foldl (run_callback ops) empty_world cbs))
     = {0..<length (heap (foldl (run_callback ops) empty_world cbs))}
   \<and> otr_calls (foldl (run_callback ops) empty_world cbs) = []"
proof (induction cbs rule: rev_induct)
  case Nil
  then show ?case by (simp add: empty_world_def)
next
  case (snoc cb cbs)
  define r where "r = foldl (run_callback ops) empty_world cbs"
  have h: "set (heap r) \<subseteq> {None}" "distinct (freed r)"
     "set (freed r) = {0..<length (heap r)}" "otr_calls r = []"
    using snoc by (simp_all add: r_def)
  have f: "foldl (run_callback ops) empty_world (cbs @ [cb]) = run_callback ops r cb"
    by (simp add: r_def)
  show ?case
    unfolding f using h
    by (auto simp: run_callback_eq atLeastLessThanSuc split: callback.splits option.splits)
qed

lemma all_None_replicate: "set xs \<subseteq> {None} \<Longrightarrow> xs = replicate (length xs) None"
  by (induction xs) auto

section \<open>The inbound transform\<close>

lemma import_string_eq:
  "import_string s w = (length (heap w), w\<lparr>heap := heap w @ [Some (Chars (c_str s @ [NUL]))]\<rparr>)"
  by (simp add: import_string_def strndup_def alloc_def)

lemma engine_output_eq:
  "engine_output out w =
     (map_option (\<lambda>_. length (heap w)) out,
      w\<lparr>heap := heap w @ (case out of None \<Rightarrow> [] | Some ob \<Rightarrow> [Some ob])\<rparr>)"
  by (simp add: engine_output_def alloc_def split: option.splits)

lemma c_str_terminated [simp]: "c_str (c_str s @ [NUL]) = c_str s"
  using c_str_append_NUL [of s "[]"] by simp

lemma message_entrypoint_pass:
  "\<not> (strncmp ''PRIVMSG'' (command msg) (length (command msg)) = 0 \<and> params_n msg = 2) \<Longrightarrow>
   message_entrypoint X L msg w = (PASS_MESSAGE, L, w)"
  by (auto simp: message_entrypoint_def)

lemma call_receiving_eq:
  shows "call_receiving X us a p s m w =
     (let out = otrl_message_receiving X ops us a p s m;
          r = foldl (run_callback ops) empty_world (recv_callbacks out);
          n = length (heap w) + length (heap r)
      in (recv_ignore out,
          map_option (\<lambda>_. n) (recv_newmessage out),
          map_option (\<lambda>_. n + (case recv_newmessage out of None \<Rightarrow> 0 | Some _ \<Rightarrow> 1)) (recv_tlvs out),
          recv_state out,
          w\<lparr>heap := heap w @ heap r
                 @ (case recv_newmessage out of None \<Rightarrow> [] | Some t \<Rightarrow> [Some (Chars (c_str t @ [NUL]))])
                 @ (case recv_tlvs out of None \<Rightarrow> [] | Some t \<Rightarrow> [Some (Tlv_chain t)]),
            freed := freed w @ map (\<lambda>a. length (heap w) + a) (freed r),
            host_calls := host_calls w @ host_calls r,
            otr_calls := otr_calls w @ [Otrl_message_receiving a p s m]\<rparr>))"
proof -
  define out where "out = otrl_message_receiving X ops us a p s m"
  define r where "r = foldl (run_callback ops) empty_world (recv_callbacks out)"
  have oc: "otr_calls r = []" using callbacks_balanced [of "recv_callbacks out"] by (simp add: r_def)
  have fr: "foldl (run_callback ops) (otr_call (Otrl_message_receiving a p s m) w) (recv_callbacks out)
            = join (otr_call (Otrl_message_receiving a p s m) w) r"
    unfolding r_def by (rule foldl_callbacks_frame)
  show ?thesis
    unfolding call_receiving_def Let_def out_def [symmetric] fr r_def [symmetric]
    by (cases "recv_newmessage out"; cases "recv_tlvs out")
       (simp_all add: engine_output_eq join_def otr_call_def oc)
qed

lemma message_entrypoint_match:
  fixes X :: "('u, 'c) externals" and L :: 'u and msg :: glirc_message and w :: world
  assumes "strncmp ''PRIVMSG'' (command msg) (length (command msg)) = 0" and "params_n msg = 2"
    and out_def: "out = otrl_message_receiving X ops L (c_str (params msg ! 0)) (c_str (network msg))
                    (c_str (prefix_nick msg)) (c_str (params msg ! 1))"
    and r_def: "r = foldl (run_callback ops) empty_world (recv_callbacks out)"
    and n_def: "n = length (heap w)"
  shows "message_entrypoint X L msg w =
     (if recv_newmessage out \<noteq> None \<or> recv_ignore out \<noteq> 0 then DROP_MESSAGE else PASS_MESSAGE,
      recv_state out,
      w\<lparr>heap := heap w @ [None, None, None, None] @ heap r
                  @ (case recv_newmessage out of None \<Rightarrow> [] | Some _ \<Rightarrow> [None])
                  @ (case recv_tlvs out of None \<Rightarrow> [] | Some _ \<Rightarrow> [None]),
        freed := freed w @ map (\<lambda>a. n + 4 + a) (freed r)
                  @ (case recv_tlvs out of None \<Rightarrow> []
                     | Some _ \<Rightarrow> [n + 4 + length (heap r)
                                   + (case recv_newmessage out of None \<Rightarrow> 0 | Some _ \<Rightarrow> 1)])
                  @ (case recv_newmessage out of None \<Rightarrow> [] | Some _ \<Rightarrow> [n + 4 + length (heap r)])
                  @ [n, n + 1, n + 2, n + 3],
        host_calls := host_calls w @ host_calls r
                  @ (case recv_newmessage out of None \<Rightarrow> []
                     | Some plain \<Rightarrow> [Inject_chat (network msg) (prefix_nick msg) (prefix_nick msg)
                                        (c_str plain)]),
        otr_calls := otr_calls w @ [Otrl_message_receiving (c_str (params msg ! 0))
                       (c_str (network msg)) (c_str (prefix_nick msg)) (c_str (params msg ! 1))]\<rparr>)"
proof -
  define b0 where "b0 = Some (Chars (c_str (prefix_nick msg) @ [NUL]))"
  define b1 where "b1 = Some (Chars (c_str (params msg ! 0) @ [NUL]))"
  define b2 where "b2 = Some (Chars (c_str (params msg ! 1) @ [NUL]))"
  define b3 where "b3 = Some (Chars (c_str (network msg) @ [NUL]))"
  define w4 where "w4 = w\<lparr>heap := heap w @ [b0, b1, b2, b3]\<rparr>"
  have ld: "load w4 n = c_str (prefix_nick msg) @ [NUL]"
           "load w4 (Suc n) = c_str (params msg ! 0) @ [NUL]"
           "load w4 (Suc (Suc n)) = c_str (params msg ! 1) @ [NUL]"
           "load w4 (Suc (Suc (Suc n))) = c_str (network msg) @ [NUL]"
    by (simp_all add: load_def w4_def n_def nth_append b0_def b1_def b2_def b3_def)
  have len4: "length (heap w4) = n + 4" by (simp add: w4_def n_def)
  have start: "message_entrypoint X L msg w =
     (let (drop, newmessage, tlvs, us, w5) =
               call_receiving X L (c_str (load w4 (Suc n))) (c_str (load w4 (Suc (Suc (Suc n)))))
                 (c_str (load w4 n)) (c_str (load w4 (Suc (Suc n)))) w4;
            w6 = (case newmessage of
                    Some p \<Rightarrow>
                      glirc_inject_chat (network msg) (prefix_nick msg) (prefix_nick msg)
                        (take (strlen (load w5 p)) (load w5 p)) w5
                  | None \<Rightarrow> w5);
            w7 = otrl_tlv_free tlvs w6;
            w8 = otrl_message_free newmessage w7;
            w9 = release (Some n) w8;
            w10 = release (Some (Suc n)) w9;
            w11 = release (Some (Suc (Suc n))) w10;
            w12 = release (Some (Suc (Suc (Suc n)))) w11
        in (if newmessage \<noteq> None \<or> drop \<noteq> 0 then DROP_MESSAGE else PASS_MESSAGE, us, w12))"
    using assms(1,2)
    by (simp add: message_entrypoint_def import_string_eq w4_def n_def b0_def b1_def b2_def b3_def)
  show ?thesis
  proof (cases "recv_newmessage out")
    case None
    note nm = None
    show ?thesis
    proof (cases "recv_tlvs out")
      case None
      show ?thesis
        using nm None unfolding start ld call_receiving_eq out_def r_def
        by (simp add: Let_def w4_def n_def [symmetric]
              otrl_tlv_free_def otrl_message_free_def release_def list_update_append list_update_code)
    next
      case (Some t)
      show ?thesis
        using nm Some unfolding start ld call_receiving_eq out_def r_def
        by (simp add: Let_def w4_def n_def [symmetric]
              otrl_tlv_free_def otrl_message_free_def release_def list_update_append list_update_code)
    qed
  next
    case (Some plain)
    note nm = Some
    show ?thesis
    proof (cases "recv_tlvs out")
      case None
      show ?thesis
        using nm None unfolding start ld call_receiving_eq out_def r_def
        by (simp add: Let_def w4_def n_def [symmetric]
              otrl_tlv_free_def otrl_message_free_def release_def list_update_append list_update_code
              glirc_inject_chat_def load_def nth_append take_strlen)
    next
      case (Some t)
      show ?thesis
        using nm Some unfolding start ld call_receiving_eq out_def r_def
        by (simp add: Let_def w4_def n_def [symmetric]
              otrl_tlv_free_def otrl_message_free_def release_def list_update_append list_update_code
              glirc_inject_chat_def load_def nth_append take_strlen)
    qed
  qed
qed

section \<open>Releases\<close>

lemma released_exactly_onceI:
  assumes "heap w' = heap w @ ys" and "set ys \<subseteq> {None}"
    and "freed w' = freed w @ fs" and "distinct fs"
    and "set fs = {length (heap w)..<length (heap w) + length ys}"
  shows "released_exactly_once w w'"
proof -
  have "replicate (length ys) None = ys" using all_None_replicate [OF assms(2)] by simp
  then show ?thesis
    using assms(1,3,4,5) by (simp add: released_exactly_once_def)
qed

lemma released_exactly_onceD:
  assumes "released_exactly_once w w'"
  shows "\<exists>k fs. heap w' = heap w @ replicate k None \<and> freed w' = freed w @ fs \<and> distinct fs
           \<and> set fs = {length (heap w)..<length (heap w) + k}"
proof -
  define k where "k = length (heap w') - length (heap w)"
  define fs where "fs = drop (length (freed w)) (freed w')"
  have h: "heap w' = heap w @ replicate k None"
    using assms unfolding released_exactly_once_def k_def by blast
  have "length (heap w') = length (heap w @ replicate k None)"
    by (subst h) (rule refl)
  then have len: "length (heap w') = length (heap w) + k"
    by simp
  have tk: "take (length (freed w)) (freed w') = freed w"
    using assms unfolding released_exactly_once_def by blast
  have "take (length (freed w)) (freed w') @ fs = freed w'"
    unfolding fs_def by (rule append_take_drop_id)
  then have f: "freed w' = freed w @ fs"
    unfolding tk by (rule sym)
  have d: "distinct fs"
    using assms unfolding released_exactly_once_def fs_def by blast
  have "set fs = {length (heap w)..<length (heap w')}"
    using assms unfolding released_exactly_once_def fs_def by blast
  then have "set fs = {length (heap w)..<length (heap w) + k}"
    unfolding len .
  with h f d show ?thesis by blast
qed

lemma released_exactly_once_refl: "released_exactly_once w w"
  by (simp add: released_exactly_once_def)

lemma released_exactly_once_trans:
  assumes "released_exactly_once w w'" and "released_exactly_once w' w''"
  shows "released_exactly_once w w''"
proof -
  obtain k fs where 1: "heap w' = heap w @ replicate k None" "freed w' = freed w @ fs"
      "distinct fs" "set fs = {length (heap w)..<length (heap w) + k}"
    using released_exactly_onceD [OF assms(1)] by blast
  obtain j gs where 2: "heap w'' = heap w' @ replicate j None" "freed w'' = freed w' @ gs"
      "distinct gs" "set gs = {length (heap w')..<length (heap w') + j}"
    using released_exactly_onceD [OF assms(2)] by blast
  have len: "length (heap w') = length (heap w) + k" using 1(1) by simp
  show ?thesis
  proof (rule released_exactly_onceI)
    show "heap w'' = heap w @ (replicate k None @ replicate j None)" using 1 2 by simp
    show "set (replicate k None @ replicate j (None :: obj option)) \<subseteq> {None}" by auto
    show "freed w'' = freed w @ (fs @ gs)" using 1 2 by simp
    show "distinct (fs @ gs)" using 1 2 len by auto
    show "set (fs @ gs) = {length (heap w)..<length (heap w) + length (replicate k None @ replicate j (None :: obj option))}"
      using 1 2 len by auto
  qed
qed

lemma released_exactly_once_live:
  assumes "released_exactly_once w w'"
  shows "live w' = live w"
proof -
  obtain k fs where 1: "heap w' = heap w @ replicate k None"
    using released_exactly_onceD [OF assms] by blast
  define n where "n = length (heap w)"
  have up: "[0..<n + k] = [0..<n] @ [n..<n + k]"
    by (rule upt_add_eq_append) simp
  have a: "filter (\<lambda>a. (heap w @ replicate k None) ! a \<noteq> None) [n..<n + k] = []"
    by (auto simp: filter_empty_conv nth_append n_def)
  have b: "filter (\<lambda>a. (heap w @ replicate k None) ! a \<noteq> None) [0..<n]
        = filter (\<lambda>a. heap w ! a \<noteq> None) [0..<n]"
    by (rule filter_cong) (auto simp: nth_append n_def)
  have "live w' = filter (\<lambda>a. (heap w @ replicate k None) ! a \<noteq> None) [0..<n + k]"
    by (simp add: live_def 1 n_def)
  also have "\<dots> = filter (\<lambda>a. heap w ! a \<noteq> None) [0..<n]"
    unfolding up filter_append a b by simp
  finally show ?thesis by (simp add: live_def n_def)
qed

lemma message_entrypoint_released:
  "released_exactly_once w (snd (snd (message_entrypoint X L msg w)))"
proof (cases "strncmp ''PRIVMSG'' (command msg) (length (command msg)) = 0 \<and> params_n msg = 2")
  case False
  then show ?thesis
    by (simp add: message_entrypoint_pass released_exactly_once_refl)
next
  case True
  define out where "out = otrl_message_receiving X ops L (c_str (params msg ! 0)) (c_str (network msg))
                    (c_str (prefix_nick msg)) (c_str (params msg ! 1))"
  define r where "r = foldl (run_callback ops) empty_world (recv_callbacks out)"
  define n where "n = length (heap w)"
  define w' where "w' = snd (snd (message_entrypoint X L msg w))"
  define e1 :: "obj option list" where "e1 = (case recv_newmessage out of None \<Rightarrow> [] | Some _ \<Rightarrow> [None])"
  define e2 :: "obj option list" where "e2 = (case recv_tlvs out of None \<Rightarrow> [] | Some _ \<Rightarrow> [None])"
  define f2 where "f2 = (case recv_tlvs out of None \<Rightarrow> []
                     | Some _ \<Rightarrow> [n + 4 + length (heap r)
                                   + (case recv_newmessage out of None \<Rightarrow> 0 | Some _ \<Rightarrow> 1)])"
  define f1 where "f1 = (case recv_newmessage out of None \<Rightarrow> [] | Some _ \<Rightarrow> [n + 4 + length (heap r)])"
  have r: "set (heap r) \<subseteq> {None}" "distinct (freed r)" "set (freed r) = {0..<length (heap r)}"
    using callbacks_balanced [of "recv_callbacks out"] by (simp_all add: r_def)
  have hp: "heap w' = heap w @ ([None, None, None, None] @ heap r @ e1 @ e2)"
    and fr: "freed w' = freed w @ (map (\<lambda>a. n + 4 + a) (freed r) @ f2 @ f1 @ [n, n + 1, n + 2, n + 3])"
    using True
    by (simp_all add: w'_def message_entrypoint_match [OF _ _ out_def r_def n_def]
          e1_def e2_def f1_def f2_def)
  have img: "set (map (\<lambda>a. n + 4 + a) (freed r)) = {n + 4..<n + 4 + length (heap r)}"
    using r(3) by (auto simp: image_iff)
  have dm: "distinct (map (\<lambda>a. n + 4 + a) (freed r))"
    using r(2) by (simp add: distinct_map inj_on_def)
  have "released_exactly_once w w'"
  proof (rule released_exactly_onceI [OF hp _ fr])
    show "set ([None, None, None, None] @ heap r @ e1 @ e2) \<subseteq> {None}"
      using r(1) by (auto simp: e1_def e2_def split: option.splits)
    show "distinct (map (\<lambda>a. n + 4 + a) (freed r) @ f2 @ f1 @ [n, n + 1, n + 2, n + 3])"
      using dm img by (auto simp: f1_def f2_def split: option.splits)
    show "set (map (\<lambda>a. n + 4 + a) (freed r) @ f2 @ f1 @ [n, n + 1, n + 2, n + 3])
        = {length (heap w)..<length (heap w) + length ([None, None, None, None] @ heap r @ e1 @ e2)}"
      unfolding set_append img
      by (auto simp: f1_def f2_def e1_def e2_def n_def split: option.splits)
  qed
  then show ?thesis by (simp add: w'_def)
qed

lemma process_messages_released:
  "released_exactly_once w (snd (snd (process_messages X L msgs w)))"
proof (induction msgs arbitrary: L w)
  case Nil
  then show ?case by (simp add: released_exactly_once_refl)
next
  case (Cons msg msgs)
  obtain r L1 w1 where m: "message_entrypoint X L msg w = (r, L1, w1)"
    by (cases "message_entrypoint X L msg w") auto
  have 1: "released_exactly_once w w1"
    using message_entrypoint_released [of w X L msg] by (simp add: m)
  have 2: "released_exactly_once w1 (snd (snd (process_messages X L1 msgs w1)))"
    by (rule Cons.IH)
  have "snd (snd (process_messages X L (msg # msgs) w)) = snd (snd (process_messages X L1 msgs w1))"
    by (simp add: m split: prod.splits)
  then show ?case
    using released_exactly_once_trans [OF 1 2] by simp
qed

text \<open>
  C8.  Whatever the message and whatever the engine answers, when
  \<^verbatim>\<open>message_entrypoint\<close> returns every block allocated during the call (the four
  strings decoded from the message, the plaintext buffer and the TLV chain of the engine,
  the buffers of the callbacks) has been released exactly once, no older block has been
  released or changed, and no block is left.  The same holds after any sequence of
  messages, so the live blocks are those there were before.
\<close>

theorem message_entrypoint_releases:
  "released_exactly_once w (snd (snd (message_entrypoint X L msg w)))
   \<and> released_exactly_once w (snd (snd (process_messages X L msgs w)))
   \<and> live (snd (snd (process_messages X L msgs w))) = live w"
  using message_entrypoint_released [of w X L msg] process_messages_released [of w X L msgs]
    released_exactly_once_live [of w "snd (snd (process_messages X L msgs w))"]
  by simp

theorem message_entrypoint_releases_witness:
  "released_exactly_once demo_world
     (snd (snd (message_entrypoint demo 0 (demo_message ''PRIVMSG'' ''?OTR:AAMD'') demo_world)))
   \<and> released_exactly_once demo_world
     (snd (snd (process_messages demo 0
        [demo_message ''PRIVMSG'' ''?OTRv23?'', demo_message ''NOTICE'' ''x'',
         demo_message ''PRIVMSG'' ''?OTR:AAMD'', demo_message ''PRIVMSG'' ''hi''] demo_world)))
   \<and> live (snd (snd (process_messages demo 0
        [demo_message ''PRIVMSG'' ''?OTRv23?'', demo_message ''NOTICE'' ''x'',
         demo_message ''PRIVMSG'' ''?OTR:AAMD'', demo_message ''PRIVMSG'' ''hi''] demo_world)))
       = [0]"
proof -
  have "live demo_world = [0]"
    by (simp add: live_def demo_world_def)
  then show ?thesis
    using message_entrypoint_releases [of demo_world demo 0 "demo_message ''PRIVMSG'' ''?OTR:AAMD''"
          "[demo_message ''PRIVMSG'' ''?OTRv23?'', demo_message ''NOTICE'' ''x'',
            demo_message ''PRIVMSG'' ''?OTR:AAMD'', demo_message ''PRIVMSG'' ''hi'']"]
    by simp
qed

lemma strncmp_PRIVMSG [simp]: "strncmp ''PRIVMSG'' ''PRIVMSG'' (length ''PRIVMSG'') = 0"
  by (simp add: byte_at_def NUL_def)

text \<open>
  C3.  For a \<open>PRIVMSG\<close> with two parameters the engine's receive path is called on the
  decoded strings, and its output decides: with a plaintext, the plaintext is shown as a
  chat line from the sender (after whatever the engine's callbacks sent or showed) and the
  result is \<open>DROP_MESSAGE\<close>; with no plaintext, nothing is shown in its place and the
  result is \<open>DROP_MESSAGE\<close> when the engine's flag is set, \<open>PASS_MESSAGE\<close> otherwise.
\<close>

theorem message_entrypoint_decision:
  assumes "command msg = ''PRIVMSG''" and "params_n msg = 2"
    and "out = otrl_message_receiving X ops L (c_str (params msg ! 0)) (c_str (network msg))
                 (c_str (prefix_nick msg)) (c_str (params msg ! 1))"
    and "message_entrypoint X L msg w = (res, L', w')"
  shows "case recv_newmessage out of
           Some plain \<Rightarrow>
             res = DROP_MESSAGE
             \<and> host_calls w' = host_calls w @ callbacks_host_calls (recv_callbacks out)
                   @ [Inject_chat (network msg) (prefix_nick msg) (prefix_nick msg) (c_str plain)]
         | None \<Rightarrow>
             res = (if recv_ignore out \<noteq> 0 then DROP_MESSAGE else PASS_MESSAGE)
             \<and> host_calls w' = host_calls w @ callbacks_host_calls (recv_callbacks out)"
proof -
  have m: "strncmp ''PRIVMSG'' (command msg) (length (command msg)) = 0"
    by (simp add: assms(1))
  show ?thesis
    using assms(4)
    unfolding message_entrypoint_match [OF m assms(2) assms(3) refl refl] callbacks_host_calls_def
    by (auto split: option.splits)
qed

theorem message_entrypoint_decision_witness:
  "message_entrypoint demo 0 (demo_message ''PRIVMSG'' ''?OTR:AAMD'') empty_world
     = (DROP_MESSAGE, snd (message_entrypoint demo 0 (demo_message ''PRIVMSG'' ''?OTR:AAMD'') empty_world))
   \<and> host_calls (snd (snd (message_entrypoint demo 0 (demo_message ''PRIVMSG'' ''?OTR:AAMD'') empty_world)))
     = [Inject_chat ''net'' ''alice'' ''alice'' ''hello'']"
  using message_entrypoint_decision
     [of "demo_message ''PRIVMSG'' ''?OTR:AAMD''"
         "demo_receiving ops 0 ''bob'' ''net'' ''alice'' ''?OTR:AAMD''" demo 0 empty_world
         "fst (message_entrypoint demo 0 (demo_message ''PRIVMSG'' ''?OTR:AAMD'') empty_world)"
         "fst (snd (message_entrypoint demo 0 (demo_message ''PRIVMSG'' ''?OTR:AAMD'') empty_world))"
         "snd (snd (message_entrypoint demo 0 (demo_message ''PRIVMSG'' ''?OTR:AAMD'') empty_world))"]
  by (simp add: demo_message_def params_n_def demo_def demo_receiving_def c_str_def NUL_def
        callbacks_host_calls_def empty_world_def prod_eq_iff)

lemma strncmp_zero_iff:
  "strncmp s1 s2 n = 0 \<longleftrightarrow> take n (c_str s1 @ [NUL]) = take n (c_str s2 @ [NUL])"
proof (induction n arbitrary: s1 s2)
  case 0
  then show ?case by simp
next
  case (Suc n)
  show ?case
  proof (cases s1)
    case Nil
    then show ?thesis
      by (cases s2) (auto simp: byte_at_def c_str_def Let_def)
  next
    case (Cons a as)
    note s1 = Cons
    show ?thesis
    proof (cases s2)
      case Nil
      then show ?thesis using s1
        by (auto simp: byte_at_def c_str_def Let_def)
    next
      case (Cons b bs)
      then show ?thesis using s1 Suc.IH [of as bs]
        by (auto simp: byte_at_def c_str_def Let_def)
    qed
  qed
qed

lemma PRIVMSG_prefix_matches:
  "strncmp ''PRIVMSG'' cmd (length cmd) = 0
     \<longleftrightarrow> take (length cmd) (''PRIVMSG'' @ [NUL]) = take (length cmd) (c_str cmd @ [NUL])"
proof -
  have c: "c_str ''PRIVMSG'' = ''PRIVMSG''"
    by (simp add: c_str_def NUL_def)
  show ?thesis
    by (simp only: strncmp_zero_iff c)
qed

text \<open>
  C1.  A message passes untouched, with no call of the engine, when the test of
  \<^verbatim>\<open>message_entrypoint\<close> fails (\<open>message_entrypoint_pass\<close>).  The test compares only
  the first \<open>len\<close> bytes of the command (\<open>PRIVMSG_prefix_matches\<close>), so a command that
  is a proper prefix of \<open>PRIVMSG\<close> passes it: the command \<open>PRIV\<close> with two parameters
  reaches the engine and is dropped.
\<close>

theorem message_entrypoint_prefix_command:
  "command (demo_message ''PRIV'' ''?OTRv23?'') \<noteq> ''PRIVMSG''
   \<and> message_entrypoint demo 0 (demo_message ''PRIV'' ''?OTRv23?'') empty_world
     = (DROP_MESSAGE, 1,
        \<lparr>heap = [None, None, None, None, None, None], freed = [5, 4, 0, 1, 2, 3],
          host_calls = [Send_message \<lparr>network = ''net'', prefix_nick = [], command = ''PRIVMSG'',
                                       params = [''alice'', ''?OTR:AAMC x'']\<rparr>],
          otr_calls = [Otrl_message_receiving ''bob'' ''net'' ''alice'' ''?OTRv23?'']\<rparr>)"
  by code_simp

theorem message_entrypoint_prefix_command_witness:
  "fst (message_entrypoint demo 0 (demo_message ''PRIV'' ''?OTRv23?'') empty_world) = DROP_MESSAGE
   \<and> otr_calls (snd (snd (message_entrypoint demo 0 (demo_message ''PRIV'' ''?OTRv23?'') empty_world)))
       = [Otrl_message_receiving ''bob'' ''net'' ''alice'' ''?OTRv23?'']"
  using message_entrypoint_prefix_command by simp

section \<open>The outbound transform\<close>

lemma call_sending_eq:
  "call_sending X us a p rc m w =
     (let out = otrl_message_sending X ops us a p rc m;
          r = foldl (run_callback ops) empty_world (send_callbacks out)
      in (send_err out,
          map_option (\<lambda>_. length (heap w) + length (heap r)) (send_newmsg out),
          send_state out,
          w\<lparr>heap := heap w @ heap r
                 @ (case send_newmsg out of None \<Rightarrow> [] | Some t \<Rightarrow> [Some (Chars (c_str t @ [NUL]))]),
            freed := freed w @ map (\<lambda>a. length (heap w) + a) (freed r),
            host_calls := host_calls w @ host_calls r,
            otr_calls := otr_calls w @ [Otrl_message_sending (case a of None \<Rightarrow> [] | Some a \<Rightarrow> a) p rc m]\<rparr>))"
proof -
  define out where "out = otrl_message_sending X ops us a p rc m"
  define r where "r = foldl (run_callback ops) empty_world (send_callbacks out)"
  define c where "c = Otrl_message_sending (case a of None \<Rightarrow> [] | Some a \<Rightarrow> a) p rc m"
  have oc: "otr_calls r = []" using callbacks_balanced [of "send_callbacks out"] by (simp add: r_def)
  have fr: "foldl (run_callback ops) (otr_call c w) (send_callbacks out) = join (otr_call c w) r"
    unfolding r_def by (rule foldl_callbacks_frame)
  show ?thesis
    unfolding call_sending_def Let_def out_def [symmetric] c_def [symmetric] fr r_def [symmetric]
    by (cases "send_newmsg out")
       (simp_all add: engine_output_eq join_def otr_call_def oc)
qed

lemma heap_after_host_calls:
  "heap_update f (host_calls_update g w) = host_calls_update g (heap_update f w)"
  by (cases w) simp

lemma chat_entrypoint_step:
  "chat_entrypoint X L chat w =
     (let n = length (heap w);
          nick = glirc_my_nick X (chat_network chat);
          mep = map_option (\<lambda>_. Suc (Suc (Suc n))) nick;
          w5 = w\<lparr>heap := heap w @ [Some (Chars (c_str (chat_network chat) @ [NUL])),
                                      Some (Chars (c_str (chat_target chat) @ [NUL])),
                                      Some (Chars (c_str (chat_message chat) @ [NUL]))]
                             @ (case nick of None \<Rightarrow> [] | Some s \<Rightarrow> [Some (Chars (c_str s @ [NUL]))]),
                 host_calls := host_calls w @ [My_nick (chat_network chat)]\<rparr>;
          r = call_sending X L (map_option c_str nick)
               (c_str (chat_network chat)) (c_str (chat_target chat)) (c_str (chat_message chat)) w5;
          err = fst r; newmsg = fst (snd r); us = fst (snd (snd r)); w6 = snd (snd (snd r));
          w10 = release mep (release (Some n) (release (Some (Suc n)) (release (Some (Suc (Suc n))) w6)))
      in if newmsg \<noteq> None then (DROP_MESSAGE, us, otrl_message_free newmsg w10)
         else if err \<noteq> 0 then
           (DROP_MESSAGE, us, glirc_print ERROR_MESSAGE ''PANIC: OTR encryption error'' w10)
         else (PASS_MESSAGE, us, w10))"
proof -
  have panic: "c_str ''PANIC: OTR encryption error'' = ''PANIC: OTR encryption error''"
    by (simp add: c_str_def NUL_def)
  show ?thesis
    by (cases "glirc_my_nick X (chat_network chat)")
       (simp_all add: chat_entrypoint_def import_string_eq engine_output_eq Let_def split_beta
          load_def nth_append take_strlen panic heap_after_host_calls)
qed

lemma chat_entrypoint_eq:
  assumes out_def: "out = otrl_message_sending X ops L (map_option c_str (glirc_my_nick X (chat_network chat)))
                      (c_str (chat_network chat)) (c_str (chat_target chat)) (c_str (chat_message chat))"
  shows "fst (chat_entrypoint X L chat w) =
           (if send_newmsg out \<noteq> None \<or> send_err out \<noteq> 0 then DROP_MESSAGE else PASS_MESSAGE)
       \<and> fst (snd (chat_entrypoint X L chat w)) = send_state out
       \<and> host_calls (snd (snd (chat_entrypoint X L chat w))) =
           host_calls w @ [My_nick (chat_network chat)] @ callbacks_host_calls (send_callbacks out)
             @ (if send_newmsg out = None \<and> send_err out \<noteq> 0
                then [Print ERROR_MESSAGE ''PANIC: OTR encryption error''] else [])
       \<and> otr_calls (snd (snd (chat_entrypoint X L chat w))) =
           otr_calls w @ [Otrl_message_sending
              (case glirc_my_nick X (chat_network chat) of None \<Rightarrow> [] | Some a \<Rightarrow> c_str a)
              (c_str (chat_network chat)) (c_str (chat_target chat)) (c_str (chat_message chat))]"
proof (cases "glirc_my_nick X (chat_network chat)")
  case None
  have o: "otrl_message_sending X ops L None
             (c_str (chat_network chat)) (c_str (chat_target chat)) (c_str (chat_message chat)) = out"
    by (simp add: out_def None)
  show ?thesis
    unfolding chat_entrypoint_step call_sending_eq
    by (cases "send_newmsg out")
       (simp_all add: None o Let_def release_def otrl_message_free_def glirc_print_def
          callbacks_host_calls_def)
next
  case (Some nick)
  have o: "otrl_message_sending X ops L (Some (c_str nick))
             (c_str (chat_network chat)) (c_str (chat_target chat)) (c_str (chat_message chat)) = out"
    by (simp add: out_def Some)
  show ?thesis
    unfolding chat_entrypoint_step call_sending_eq
    by (cases "send_newmsg out")
       (simp_all add: Some o Let_def release_def otrl_message_free_def glirc_print_def
          callbacks_host_calls_def)
qed

text \<open>
  C2, as the code has it.  When the send path reports an error code the result is
  \<open>DROP_MESSAGE\<close>, never \<open>PASS_MESSAGE\<close>.  After the nickname query and whatever the
  engine's callbacks sent or showed, \<^verbatim>\<open>chat_entrypoint\<close> itself shows the one notice
  \<open>PANIC: OTR encryption error\<close> when the engine left no replacement, and nothing when it
  left one: the replacement is looked at first.
\<close>

theorem chat_entrypoint_error_drops:
  assumes "out = otrl_message_sending X ops L (map_option c_str (glirc_my_nick X (chat_network chat)))
                   (c_str (chat_network chat)) (c_str (chat_target chat)) (c_str (chat_message chat))"
    and "send_err out \<noteq> 0"
  shows "fst (chat_entrypoint X L chat w) = DROP_MESSAGE
       \<and> host_calls (snd (snd (chat_entrypoint X L chat w))) =
           host_calls w @ [My_nick (chat_network chat)] @ callbacks_host_calls (send_callbacks out)
             @ (if send_newmsg out = None
                then [Print ERROR_MESSAGE ''PANIC: OTR encryption error''] else [])"
  using chat_entrypoint_eq [OF assms(1), of w] assms(2) by simp

theorem chat_entrypoint_error_drops_witness:
  "fst (chat_entrypoint demo 0 (demo_chat ''broken'') empty_world) = DROP_MESSAGE
   \<and> host_calls (snd (snd (chat_entrypoint demo 0 (demo_chat ''broken'') empty_world))) =
       [My_nick ''net'', Print ERROR_MESSAGE ''PANIC: OTR encryption error'']"
  using chat_entrypoint_error_drops
          [of "demo_sending ops 0 (Some ''me'') ''net'' ''alice'' ''broken''" demo 0
              "demo_chat ''broken''" empty_world]
  by (simp add: demo_def demo_chat_def demo_sending_def c_str_def NUL_def
        callbacks_host_calls_def empty_world_def)

text \<open>
  C2, as stated, fails where the engine reports an error and leaves a replacement (libotr
  does so when encrypting fails): the message is dropped and no notice is shown.
\<close>

theorem chat_entrypoint_error_unnotified:
  "send_err (otrl_message_sending demo ops 0 (Some ''me'') ''net'' ''alice'' ''both'') \<noteq> 0
   \<and> chat_entrypoint demo 0 (demo_chat ''both'') empty_world
     = (DROP_MESSAGE, 0,
        \<lparr>heap = [None, None, None, None, None], freed = [2, 1, 0, 3, 4],
          host_calls = [My_nick ''net''],
          otr_calls = [Otrl_message_sending ''me'' ''net'' ''alice'' ''both'']\<rparr>)"
  by code_simp

text \<open>
  C4.  A replacement payload from the send path makes the result \<open>DROP_MESSAGE\<close>.  With
  no replacement and no error code the result is \<open>PASS_MESSAGE\<close>, and
  \<^verbatim>\<open>chat_entrypoint\<close> has made no call into the host but the nickname query (the
  callbacks are the engine's): the chat record is only read, so the host sends the message
  as it was.
\<close>

theorem chat_entrypoint_decision:
  assumes "out = otrl_message_sending X ops L (map_option c_str (glirc_my_nick X (chat_network chat)))
                   (c_str (chat_network chat)) (c_str (chat_target chat)) (c_str (chat_message chat))"
  shows "(send_newmsg out \<noteq> None \<longrightarrow> fst (chat_entrypoint X L chat w) = DROP_MESSAGE)
       \<and> (send_newmsg out = None \<and> send_err out = 0 \<longrightarrow>
            fst (chat_entrypoint X L chat w) = PASS_MESSAGE
            \<and> host_calls (snd (snd (chat_entrypoint X L chat w))) =
                host_calls w @ [My_nick (chat_network chat)] @ callbacks_host_calls (send_callbacks out))"
  using chat_entrypoint_eq [OF assms, of w] by simp

theorem chat_entrypoint_decision_witness:
  "fst (chat_entrypoint demo 0 (demo_chat ''secret'') empty_world) = DROP_MESSAGE
   \<and> fst (chat_entrypoint demo 0 (demo_chat ''hi'') empty_world) = PASS_MESSAGE
   \<and> host_calls (snd (snd (chat_entrypoint demo 0 (demo_chat ''hi'') empty_world))) = [My_nick ''net'']"
  using chat_entrypoint_decision
          [of "demo_sending ops 0 (Some ''me'') ''net'' ''alice'' ''secret''" demo 0
              "demo_chat ''secret''" empty_world]
        chat_entrypoint_decision
          [of "demo_sending ops 0 (Some ''me'') ''net'' ''alice'' ''hi''" demo 0
              "demo_chat ''hi''" empty_world]
  by (simp add: demo_def demo_chat_def demo_sending_def c_str_def NUL_def
        callbacks_host_calls_def empty_world_def)

section \<open>Startup\<close>

lemma start_entrypoint_eq:
  assumes "otrl_init X = 0"
    and "length (c_str (dirname_r X path)) + length ''/keyfile'' + 1 \<le> PATH_MAX X"
    and "keyfile = c_str (dirname_r X path) @ ''/keyfile''"
    and "g = otrl_privkey_generate X (otrl_userstate_create X) keyfile ''glguy'' ''elis.local'' disk"
  shows "start_entrypoint X path (w, disk) =
           Inr (fst (snd g),
                w\<lparr>otr_calls := otr_calls w @
                     [Otrl_init, Otrl_userstate_create,
                      Otrl_privkey_generate keyfile ''glguy'' ''elis.local'']\<rparr>,
                snd (snd g))"
  using assms(1,2) unfolding assms(3,4)
  by (simp add: start_entrypoint_def Let_def otr_call_def split_beta)

text \<open>
  C6, as the code has it.  When the global initialisation succeeds and the key-file path
  fits its buffer, \<^verbatim>\<open>start_entrypoint\<close> returns the user state as its handle whatever
  error code \<^verbatim>\<open>otrl_privkey_generate\<close> reports: the code is not read.
\<close>

theorem start_entrypoint_ignores_key_error:
  assumes "otrl_init X = 0"
    and "length (c_str (dirname_r X path)) + length ''/keyfile'' + 1 \<le> PATH_MAX X"
  shows "\<exists>w' disk'.
           start_entrypoint X path (w, disk) =
             Inr (fst (snd (otrl_privkey_generate X (otrl_userstate_create X)
                              (c_str (dirname_r X path) @ ''/keyfile'') ''glguy'' ''elis.local'' disk)),
                  w', disk')"
  using start_entrypoint_eq [OF assms refl refl, of w disk] by simp

theorem start_entrypoint_ignores_key_error_witness:
  "\<exists>w' disk'. start_entrypoint demo ''/ro/otr.so'' (empty_world, []) = Inr (0, w', disk')"
  using start_entrypoint_ignores_key_error [of demo "''/ro/otr.so''" empty_world "[]"]
  by (simp add: demo_def demo_dirname_def demo_generate_def c_str_def NUL_def)

text \<open>
  C6, as stated, fails: below \<open>/ro\<close> no key file can be written and no key is generated,
  and \<^verbatim>\<open>start_entrypoint\<close> still returns a handle.
\<close>

theorem start_entrypoint_key_error_returns_handle:
  "fst (otrl_privkey_generate demo (otrl_userstate_create demo) ''/ro/keyfile'' ''glguy'' ''elis.local'' []) \<noteq> 0
   \<and> start_entrypoint demo ''/ro/otr.so'' (empty_world, [])
     = Inr (0,
            \<lparr>heap = [], freed = [], host_calls = [],
              otr_calls = [Otrl_init, Otrl_userstate_create,
                           Otrl_privkey_generate ''/ro/keyfile'' ''glguy'' ''elis.local'']\<rparr>,
            [])"
  by code_simp

text \<open>
  C7, as the code has it.  The key-file path is the string \<^verbatim>\<open>dirname_r\<close> leaves for the
  path followed by \<open>/keyfile\<close>.  When it fits the buffer and the global initialisation
  succeeds, the calls into the engine are the initialisation, the creation of a user state
  and the generation of a key into that file for the account \<open>glguy\<close> and the protocol
  \<open>elis.local\<close>, whatever is on the disk; the handle is the user state the generation
  leaves.  No call loads a key.
\<close>

theorem start_entrypoint_calls:
  assumes "otrl_init X = 0"
    and "length (c_str (dirname_r X path)) + length ''/keyfile'' + 1 \<le> PATH_MAX X"
  shows "start_entrypoint X path (w, disk) =
           Inr (fst (snd (otrl_privkey_generate X (otrl_userstate_create X)
                            (c_str (dirname_r X path) @ ''/keyfile'') ''glguy'' ''elis.local'' disk)),
                w\<lparr>otr_calls := otr_calls w @
                     [Otrl_init, Otrl_userstate_create,
                      Otrl_privkey_generate (c_str (dirname_r X path) @ ''/keyfile'')
                        ''glguy'' ''elis.local'']\<rparr>,
                snd (snd (otrl_privkey_generate X (otrl_userstate_create X)
                            (c_str (dirname_r X path) @ ''/keyfile'') ''glguy'' ''elis.local'' disk)))"
  using start_entrypoint_eq [OF assms refl refl, of w disk] .

theorem start_entrypoint_calls_witness:
  "start_entrypoint demo ''/home/u/otr.so'' (empty_world, [])
     = Inr (1,
            empty_world\<lparr>otr_calls :=
               [Otrl_init, Otrl_userstate_create,
                Otrl_privkey_generate ''/home/u/keyfile'' ''glguy'' ''elis.local'']\<rparr>,
            [''/home/u/keyfile''])"
  using start_entrypoint_calls [of demo "''/home/u/otr.so''" empty_world "[]"]
  by (simp add: demo_def demo_dirname_def demo_generate_def c_str_def NUL_def empty_world_def)

text \<open>
  C7, as stated, fails: with a key file already at the path, \<^verbatim>\<open>start_entrypoint\<close>
  asks the engine for a fresh key all the same.
\<close>

theorem start_entrypoint_generates_over_existing_key:
  "''/home/u/keyfile'' \<in> set [''/home/u/keyfile'']
   \<and> start_entrypoint demo ''/home/u/otr.so'' (empty_world, [''/home/u/keyfile''])
     = Inr (1,
            \<lparr>heap = [], freed = [], host_calls = [],
              otr_calls = [Otrl_init, Otrl_userstate_create,
                           Otrl_privkey_generate ''/home/u/keyfile'' ''glguy'' ''elis.local'']\<rparr>,
            [''/home/u/keyfile'', ''/home/u/keyfile''])"
  by code_simp

end
